theory Spec2Isabelle
  imports Main
begin

section \<open>Nodes and object identity\<close>

text \<open>
  The program (src/AStar.py) compares \<open>Node\<close> objects by identity: the class defines
  \<open>__lt__\<close>, \<open>__gt__\<close> and \<open>__hash__\<close> but no \<open>__eq__\<close>. Nodes are therefore kept in
  an explicit store, addressed by references. A reference names the place where the
  object was allocated: \<open>GridRef a b\<close> is the node made by \<open>GridNodes.__init__\<close> for
  index \<open>[a][b]\<close>; \<open>StartRef\<close> and \<open>EndRef\<close> are the two nodes made by the script
  (\<open>start_node = Node(2, 2)\<close>, \<open>end_node = Node(12, 12)\<close>), which are objects of their
  own and not the grid's nodes at those coordinates.

  The fields \<open>self.x\<close> and \<open>self.y\<close> are called \<open>x_pos\<close> and \<open>y_pos\<close> here, after the
  constructor's parameters.
\<close>

datatype ref = GridRef nat nat | StartRef | EndRef

record Node =
  x_pos :: int
  y_pos :: int
  parent_node :: "ref option"
  g_cost :: int
  h_cost :: int

definition Node_init :: "int \<Rightarrow> int \<Rightarrow> Node" where
  "Node_init x y = \<lparr>x_pos = x, y_pos = y, parent_node = None, g_cost = 0, h_cost = 0\<rparr>"

definition F_cost :: "Node \<Rightarrow> int" where
  "F_cost n = g_cost n + h_cost n"

definition node_lt :: "Node \<Rightarrow> Node \<Rightarrow> bool" where
  "node_lt a b = (if F_cost a = F_cost b then g_cost a < g_cost b else F_cost a < F_cost b)"

definition get_distance :: "Node \<Rightarrow> Node \<Rightarrow> int" where
  "get_distance current_node valid_node =
     \<bar>x_pos current_node - x_pos valid_node\<bar> + \<bar>y_pos current_node - y_pos valid_node\<bar>"

datatype error = RecursionError | NoValidNode | IndexError

text \<open>
  Two things that the program takes from the interpreter. Python's \<open>hash\<close> of a tuple is
  the field \<open>tuple_hash\<close>, given the five integers and the parent's hash (\<open>None\<close> when
  there is no parent). \<open>frames\<close> is the number of calls that can still be nested inside
  the call of \<open>run_A_star\<close> before the recursion limit is reached; a call that would go
  deeper raises \<open>RecursionError\<close>.
\<close>

record python =
  tuple_hash :: "int \<times> int \<times> int \<times> int \<times> int \<times> int option \<Rightarrow> int"
  frames :: nat

text \<open>
  \<open>Node.__hash__\<close> hashes the tuple \<open>(x, y, h_cost, h_cost, F_cost, parent_node)\<close>.
  \<open>node_hash n\<close> is the call with \<open>n\<close> frames left: the call takes one frame, reading the
  property \<open>F_cost\<close> takes one more inside it, and the hash of the tuple calls \<open>__hash__\<close>
  of the parent one frame further down. A chain of \<open>k\<close> nodes is hashed when \<open>k < n\<close>;
  with fewer frames, and so on every cyclic chain, the result is \<open>None\<close>, which stands for
  \<open>RecursionError\<close>.
\<close>

fun node_hash :: "nat \<Rightarrow> python \<Rightarrow> (ref \<Rightarrow> Node) \<Rightarrow> ref \<Rightarrow> int option" where
  "node_hash 0 H hp r = None"
| "node_hash (Suc n) H hp r =
     (if n = 0 then None
      else
        case parent_node (hp r) of
          None \<Rightarrow>
            Some (tuple_hash H (x_pos (hp r), y_pos (hp r), h_cost (hp r), h_cost (hp r),
                                F_cost (hp r), None))
        | Some p \<Rightarrow>
            Option.bind (node_hash n H hp p)
              (\<lambda>ph. Some (tuple_hash H (x_pos (hp r), y_pos (hp r), h_cost (hp r), h_cost (hp r),
                                        F_cost (hp r), Some ph))))"

section \<open>The grid\<close>

text \<open>
  \<open>GridNodes.__init__\<close> fills a \<open>width \<times> height\<close> array with fresh nodes. The
  dimensions are natural numbers (\<open>np.empty\<close> refuses negative ones).
\<close>

record GridNodes =
  width :: nat
  height :: nat
  grid :: "ref list list"

definition GridNodes_init :: "nat \<Rightarrow> nat \<Rightarrow> GridNodes" where
  "GridNodes_init w h =
     \<lparr>width = w, height = h, grid = map (\<lambda>a. map (\<lambda>b. GridRef a b) [0..<h]) [0..<w]\<rparr>"

definition get_node :: "GridNodes \<Rightarrow> int \<Rightarrow> int \<Rightarrow> ref option" where
  "get_node G x y =
     (if x + 1 > int (width G) \<or> y + 1 > int (height G) \<or> x < 0 \<or> y < 0 then None
      else Some (grid G ! nat x ! nat y))"

section \<open>The engine\<close>

text \<open>
  The state of an \<open>A_Star\<close> object together with the store of nodes. The closed set is a
  Python \<open>set\<close>: an entry is found again only under the hash it was inserted with, so
  each entry is the reference paired with that hash. The matplotlib figure, the colours
  of the squares and \<open>plot_path\<close> do not act on this state and are left out; the
  field \<open>iter_\<close> is called \<open>iter\<close>.
\<close>

record A_Star =
  grid_nodes :: GridNodes
  start_node :: ref
  end_node :: ref
  bloc_nodes :: "Node list"
  openList :: "ref list"
  closedSet :: "(ref \<times> int) set"
  iter :: nat
  A_started :: bool
  heap :: "ref \<Rightarrow> Node"

text \<open>
  The script at the end of the file, with its constants (15, 15, (2, 2), (12, 12)) as
  parameters. Store cells of grid references outside the grid are never referenced.
  \<open>A_Star_fields\<close> is the state after the assignments of \<open>A_Star.__init__\<close>, before it
  calls \<open>_init_matplotlib_figure\<close>.
\<close>

definition initial_heap :: "int \<times> int \<Rightarrow> int \<times> int \<Rightarrow> ref \<Rightarrow> Node" where
  "initial_heap start goal r =
     (case r of
        GridRef a b \<Rightarrow> Node_init (int a) (int b)
      | StartRef \<Rightarrow> Node_init (fst start) (snd start)
      | EndRef \<Rightarrow> Node_init (fst goal) (snd goal))"

definition A_Star_fields :: "nat \<Rightarrow> nat \<Rightarrow> int \<times> int \<Rightarrow> int \<times> int \<Rightarrow> A_Star" where
  "A_Star_fields w h start goal =
     \<lparr>grid_nodes = GridNodes_init w h, start_node = StartRef, end_node = EndRef,
      bloc_nodes = [], openList = [], closedSet = {}, iter = 0, A_started = False,
      heap = initial_heap start goal\<rparr>"

text \<open>
  \<open>self.squares\<close> is a \<open>width \<times> height\<close> numpy array; indexing it outside
  \<open>[-width, width) \<times> [-height, height)\<close> raises \<open>IndexError\<close>.
\<close>

definition squares_index_ok :: "A_Star \<Rightarrow> int \<Rightarrow> int \<Rightarrow> bool" where
  "squares_index_ok s i j =
     (- int (width (grid_nodes s)) \<le> i \<and> i < int (width (grid_nodes s)) \<and>
      - int (height (grid_nodes s)) \<le> j \<and> j < int (height (grid_nodes s)))"

text \<open>
  \<open>_init_matplotlib_figure\<close> colours the squares of the start and of the goal, in this
  order, before it connects the handlers of the mouse and of the keys: a start or a goal
  that is no index of \<open>self.squares\<close> ends the constructor with \<open>IndexError\<close>, and then
  there is no object and no event. \<open>A_Star_init\<close> is the constructor as a whole.
\<close>

definition init_matplotlib_figure :: "A_Star \<Rightarrow> error + A_Star" where
  "init_matplotlib_figure s =
     (if \<not> squares_index_ok s (x_pos (heap s (start_node s))) (y_pos (heap s (start_node s)))
      then Inl IndexError
      else if \<not> squares_index_ok s (x_pos (heap s (end_node s))) (y_pos (heap s (end_node s)))
      then Inl IndexError
      else Inr s)"

definition A_Star_init :: "nat \<Rightarrow> nat \<Rightarrow> int \<times> int \<Rightarrow> int \<times> int \<Rightarrow> error + A_Star" where
  "A_Star_init w h start goal = init_matplotlib_figure (A_Star_fields w h start goal)"

subsection \<open>Blocked cells\<close>

definition click_square :: "A_Star \<Rightarrow> int \<Rightarrow> int \<Rightarrow> error + A_Star" where
  "click_square s i j =
     (if x_pos (heap s (end_node s)) = i \<and> y_pos (heap s (end_node s)) = j then Inr s
      else if x_pos (heap s (start_node s)) = i \<and> y_pos (heap s (start_node s)) = j then Inr s
      else if \<not> squares_index_ok s i j then Inl IndexError
      else Inr (s\<lparr>bloc_nodes := bloc_nodes s @ [Node_init i j]\<rparr>))"

fun remove_bloc :: "int \<Rightarrow> int \<Rightarrow> Node list \<Rightarrow> Node list" where
  "remove_bloc i j [] = []"
| "remove_bloc i j (node # nodes) =
     (if x_pos node = i \<and> y_pos node = j then nodes else node # remove_bloc i j nodes)"

definition unclick_square :: "A_Star \<Rightarrow> int \<Rightarrow> int \<Rightarrow> error + A_Star" where
  "unclick_square s i j =
     (if x_pos (heap s (end_node s)) = i \<and> y_pos (heap s (end_node s)) = j then Inr s
      else if x_pos (heap s (start_node s)) = i \<and> y_pos (heap s (start_node s)) = j then Inr s
      else Inr (s\<lparr>bloc_nodes := remove_bloc i j (bloc_nodes s)\<rparr>))"

text \<open>
  A mouse event; \<open>xdata\<close> and \<open>ydata\<close> hold \<open>int(event.xdata)\<close> and \<open>int(event.ydata)\<close>,
  or \<open>None\<close> when the pointer is outside the axes.
\<close>

record mouse_event =
  button :: int
  inaxes :: bool
  xdata :: "int option"
  ydata :: "int option"

definition mouse_button_press :: "A_Star \<Rightarrow> mouse_event \<Rightarrow> error + A_Star" where
  "mouse_button_press s event =
     (if A_started s \<or> xdata event = None \<or> ydata event = None then Inr s
      else
        let i = the (xdata event); j = the (ydata event) in
        case (if button event = 1 \<and> inaxes event then click_square s i j else Inr s) of
          Inl e \<Rightarrow> Inl e
        | Inr s1 \<Rightarrow> (if button event = 3 \<and> inaxes event then unclick_square s1 i j else Inr s1))"

subsection \<open>Neighbours\<close>

text \<open>
  The two nested loops of \<open>get_valid_nodes\<close> run over these offsets in this order. The
  list that is returned holds what \<open>get_node\<close> returned, a reference or \<open>None\<close>.
  The call of \<open>get_valid_nodes\<close> takes a frame and its first call of \<open>get_node\<close> another
  one; the test \<open>eval_node in self.closedSet\<close> hashes the node inside the frame of
  \<open>get_valid_nodes\<close>, with one frame less than \<open>run_A_star\<close> has.
\<close>

definition offsets :: "(int \<times> int) list" where
  "offsets = List.product [-1, 0, 1] [-1, 0, 1]"

fun valid_nodes_loop ::
  "python \<Rightarrow> A_Star \<Rightarrow> ref \<Rightarrow> (int \<times> int) list \<Rightarrow> ref option list \<Rightarrow> error + ref option list"
where
  "valid_nodes_loop H s current_node [] returned_nodes = Inr returned_nodes"
| "valid_nodes_loop H s current_node ((i, j) # rest) returned_nodes =
     (if i = 0 \<and> j = 0 then valid_nodes_loop H s current_node rest returned_nodes
      else
        case get_node (grid_nodes s) (x_pos (heap s current_node) + i)
                      (y_pos (heap s current_node) + j) of
          None \<Rightarrow> valid_nodes_loop H s current_node rest returned_nodes
        | Some r \<Rightarrow>
            (case node_hash (frames H - 1) H (heap s) r of
               None \<Rightarrow> Inl RecursionError
             | Some hv \<Rightarrow>
                 if (r, hv) \<in> closedSet s
                 then valid_nodes_loop H s current_node rest returned_nodes
                 else if list_ex (\<lambda>node. x_pos node = x_pos (heap s r) \<and>
                                         y_pos node = y_pos (heap s r)) (bloc_nodes s)
                 then valid_nodes_loop H s current_node rest returned_nodes
                 else valid_nodes_loop H s current_node rest (returned_nodes @ [Some r])))"

definition get_valid_nodes :: "python \<Rightarrow> A_Star \<Rightarrow> ref \<Rightarrow> error + ref option list" where
  "get_valid_nodes H s current_node =
     (if frames H < 2 then Inl RecursionError
      else valid_nodes_loop H s current_node offsets [])"

subsection \<open>The search loop\<close>

text \<open>
  \<open>self.openList.sort()\<close> compares with \<open>Node.__lt__\<close> only and is stable; insertion
  from the right, each element placed before the first one that is not smaller, is that
  sort.
\<close>

fun insort_node :: "(ref \<Rightarrow> Node) \<Rightarrow> ref \<Rightarrow> ref list \<Rightarrow> ref list" where
  "insort_node hp r [] = [r]"
| "insort_node hp r (q # qs) =
     (if node_lt (hp q) (hp r) then q # insort_node hp r qs else r # q # qs)"

definition sort_nodes :: "(ref \<Rightarrow> Node) \<Rightarrow> ref list \<Rightarrow> ref list" where
  "sort_nodes hp rs = foldr (insort_node hp) rs []"

text \<open>The body of the loop over \<open>all_valid_nodes\<close>, for one \<open>valid_node\<close>.\<close>

definition visit :: "ref \<Rightarrow> A_Star \<Rightarrow> ref option \<Rightarrow> error + A_Star" where
  "visit current_node s valid_node =
     (case valid_node of
        None \<Rightarrow> Inl NoValidNode
      | Some v \<Rightarrow>
          let hp1 = (heap s)(v := (heap s v)\<lparr>g_cost :=
                       g_cost (heap s current_node) + get_distance (heap s current_node) (heap s v)\<rparr>);
              hp2 = hp1(v := (hp1 v)\<lparr>h_cost := get_distance (hp1 v) (hp1 (end_node s))\<rparr>)
          in if v \<notin> set (openList s)
             then Inr (s\<lparr>heap := hp2(v := (hp2 v)\<lparr>parent_node := Some current_node\<rparr>),
                         openList := openList s @ [v]\<rparr>)
             else Inr (s\<lparr>heap := hp2\<rparr>))"

fun visit_all :: "ref \<Rightarrow> A_Star \<Rightarrow> ref option list \<Rightarrow> error \<times> A_Star + A_Star" where
  "visit_all current_node s [] = Inr s"
| "visit_all current_node s (valid_node # rest) =
     (case visit current_node s valid_node of
        Inl e \<Rightarrow> Inl (e, s)
      | Inr s1 \<Rightarrow> visit_all current_node s1 rest)"

text \<open>
  One pass through the body of \<open>while len(self.openList) > 0\<close>: \<open>pop_first\<close> is the
  sort followed by \<open>openList[0]\<close> and \<open>pop(0)\<close>, \<open>closedSet_add\<close> is
  \<open>self.closedSet.add(current_node)\<close>, which hashes the node. \<open>Found\<close> carries the value
  that \<open>run_A_star\<close> returns, \<open>self.end_node\<close>. A sort of two or more nodes compares
  two of them, and \<open>__lt__\<close> with the property \<open>F_cost\<close> inside it needs two frames.
\<close>

datatype result = Running A_Star | Found ref A_Star | Exhausted A_Star | Raised error A_Star

definition pop_first :: "A_Star \<Rightarrow> (ref \<times> A_Star) option" where
  "pop_first s =
     (case sort_nodes (heap s) (openList s) of
        [] \<Rightarrow> None
      | current_node # rest \<Rightarrow> Some (current_node, s\<lparr>openList := rest\<rparr>))"

definition closedSet_add :: "python \<Rightarrow> A_Star \<Rightarrow> ref \<Rightarrow> A_Star option" where
  "closedSet_add H s r =
     (case node_hash (frames H) H (heap s) r of
        None \<Rightarrow> None
      | Some hv \<Rightarrow> Some (s\<lparr>closedSet := insert (r, hv) (closedSet s)\<rparr>))"

definition iteration :: "python \<Rightarrow> A_Star \<Rightarrow> result" where
  "iteration H s =
     (if \<not> length (openList s) > 0 then Exhausted s
      else if 2 \<le> length (openList s) \<and> frames H < 2 then Raised RecursionError s
      else
        case pop_first s of
          None \<Rightarrow> Raised IndexError s
        | Some (current_node, s1) \<Rightarrow>
            if (x_pos (heap s1 current_node), y_pos (heap s1 current_node)) =
               (x_pos (heap s1 (end_node s1)), y_pos (heap s1 (end_node s1)))
            then Found (end_node s1) s1
            else
              case closedSet_add H s1 current_node of
                None \<Rightarrow> Raised RecursionError s1
              | Some s2 \<Rightarrow>
                  (case get_valid_nodes H s2 current_node of
                     Inl e \<Rightarrow> Raised e s2
                   | Inr all_valid_nodes \<Rightarrow>
                       (case visit_all current_node s2 all_valid_nodes of
                          Inl (e, s3) \<Rightarrow> Raised e s3
                        | Inr s3 \<Rightarrow> Running (s3\<lparr>iter := iter s3 + 1\<rparr>))))"

text \<open>The loop, with fuel: \<open>None\<close> means that the fuel ran out before the loop ended.\<close>

fun run_loop :: "nat \<Rightarrow> python \<Rightarrow> A_Star \<Rightarrow> result option" where
  "run_loop 0 H s = None"
| "run_loop (Suc k) H s =
     (case iteration H s of
        Running s1 \<Rightarrow> run_loop k H s1
      | r \<Rightarrow> Some r)"

definition push_start :: "A_Star \<Rightarrow> A_Star" where
  "push_start s = s\<lparr>openList := openList s @ [start_node s]\<rparr>"

definition run_A_star :: "nat \<Rightarrow> python \<Rightarrow> A_Star \<Rightarrow> result option" where
  "run_A_star fuel H s = run_loop fuel H (push_start s)"

text \<open>
  \<open>_on_key_press\<close>: the space bar starts the search once. A key that is ignored leaves
  the state as it is.
\<close>

definition on_key_press :: "nat \<Rightarrow> python \<Rightarrow> A_Star \<Rightarrow> string \<Rightarrow> result option" where
  "on_key_press fuel H s key =
     (if key = '' '' \<and> A_started s = False
      then run_A_star fuel H (s\<lparr>A_started := True\<rparr>)
      else Some (Running s))"

subsection \<open>Runs\<close>

text \<open>
  What the user can do before the search: a sequence of mouse events (a handler that
  raises leaves the state as it was when it raised, which is the state before the
  event), then the space bar. \<open>key_pressed\<close> is the state in which the loop of
  \<open>run_A_star\<close> is entered; \<open>iterations k\<close> is the state after \<open>k\<close> passes through the
  loop, if the loop runs that long.
\<close>

fun mouse_events :: "A_Star \<Rightarrow> mouse_event list \<Rightarrow> A_Star" where
  "mouse_events s [] = s"
| "mouse_events s (event # events) =
     (case mouse_button_press s event of
        Inl e \<Rightarrow> mouse_events s events
      | Inr s1 \<Rightarrow> mouse_events s1 events)"

definition key_pressed :: "A_Star \<Rightarrow> A_Star" where
  "key_pressed s = push_start (s\<lparr>A_started := True\<rparr>)"

fun iterations :: "nat \<Rightarrow> python \<Rightarrow> A_Star \<Rightarrow> A_Star option" where
  "iterations 0 H s = Some s"
| "iterations (Suc k) H s =
     (case iteration H s of Running s1 \<Rightarrow> iterations k H s1 | _ \<Rightarrow> None)"

text \<open>
  The order of \<open>Node.__lt__\<close> read as "not greater": by \<open>F_cost\<close>, then by \<open>g_cost\<close>.
\<close>

definition node_le :: "Node \<Rightarrow> Node \<Rightarrow> bool" where
  "node_le a b = (F_cost a < F_cost b \<or> (F_cost a = F_cost b \<and> g_cost a \<le> g_cost b))"

text \<open>An interpreter to run the program with on concrete inputs.\<close>

definition sample_python :: python where
  "sample_python =
     \<lparr>tuple_hash = (\<lambda>(x, y, h, h', f, p).
        x + 3 * y + 5 * h + 7 * f + (case p of None \<Rightarrow> 11 | Some ph \<Rightarrow> 13 * ph)),
      frames = 1000\<rparr>"

text \<open>The state that a result carries.\<close>

fun state_of :: "result \<Rightarrow> A_Star" where
  "state_of (Running s) = s"
| "state_of (Found r s) = s"
| "state_of (Exhausted s) = s"
| "state_of (Raised e s) = s"


subsection \<open>Invariants\<close>


definition wf_state :: "nat \<Rightarrow> nat \<Rightarrow> int \<times> int \<Rightarrow> int \<times> int \<Rightarrow> A_Star \<Rightarrow> bool" where
  "wf_state w h start goal s =
     (grid_nodes s = GridNodes_init w h \<and> start_node s = StartRef \<and> end_node s = EndRef \<and>
      (\<forall>r. x_pos (heap s r) = x_pos (initial_heap start goal r) \<and>
           y_pos (heap s r) = y_pos (initial_heap start goal r)) \<and>
      (\<forall>n\<in>set (bloc_nodes s). (x_pos n, y_pos n) \<noteq> start \<and> (x_pos n, y_pos n) \<noteq> goal))"


section \<open>Paths on a grid without blocked cells\<close>

subsection \<open>Path reconstruction\<close>



subsection \<open>Coordinates\<close>

text \<open>
  \<open>pos_of\<close> reads the coordinate of a node, \<open>gref\<close> is the grid's node at a coordinate,
  \<open>inb\<close> is the bounds test of \<open>get_node\<close>. \<open>manh\<close> is \<open>get_distance\<close> on coordinates and
  \<open>cheb\<close> the number of king moves between two coordinates. \<open>neighbours\<close> lists the
  coordinates that the two nested loops of \<open>get_valid_nodes\<close> reach inside the grid, in the
  order of the loops.
\<close>

type_synonym pos = "int \<times> int"


definition manh :: "pos \<Rightarrow> pos \<Rightarrow> int" where
  "manh p q = \<bar>fst p - fst q\<bar> + \<bar>snd p - snd q\<bar>"

definition cheb :: "pos \<Rightarrow> pos \<Rightarrow> int" where
  "cheb p q = max \<bar>fst p - fst q\<bar> \<bar>snd p - snd q\<bar>"

definition gref :: "pos \<Rightarrow> ref" where
  "gref p = GridRef (nat (fst p)) (nat (snd p))"

definition inb :: "nat \<Rightarrow> nat \<Rightarrow> pos \<Rightarrow> bool" where
  "inb w h p = (0 \<le> fst p \<and> fst p < int w \<and> 0 \<le> snd p \<and> snd p < int h)"


subsection \<open>Moves towards the goal\<close>

text \<open>
  From a coordinate \<open>c\<close> that is not the goal \<open>g\<close>, an axis is available when \<open>c\<close> and \<open>g\<close>
  differ along it. \<open>fwd_node a c g\<close> is the step along the axis \<open>a\<close> towards the goal,
  \<open>diag_node c g\<close> the step along both. \<open>fwd c g q\<close> holds of the neighbours \<open>q\<close> of \<open>c\<close> on
  which the sum of the two Manhattan distances, from \<open>c\<close> and to \<open>g\<close>, is the distance from
  \<open>c\<close> to \<open>g\<close>. \<open>adist\<close> is the distance along one axis, and \<open>between s c g\<close> says that \<open>c\<close>
  lies in the rectangle spanned by \<open>s\<close> and \<open>g\<close>.
\<close>

datatype axis = AX | AY

fun other :: "axis \<Rightarrow> axis" where
  "other AX = AY"
| "other AY = AX"

definition avail :: "axis \<Rightarrow> pos \<Rightarrow> pos \<Rightarrow> bool" where
  "avail a c g = (case a of AX \<Rightarrow> fst c \<noteq> fst g | AY \<Rightarrow> snd c \<noteq> snd g)"

definition fwd_node :: "axis \<Rightarrow> pos \<Rightarrow> pos \<Rightarrow> pos" where
  "fwd_node a c g =
     (case a of AX \<Rightarrow> (fst c + sgn (fst g - fst c), snd c)
              | AY \<Rightarrow> (fst c, snd c + sgn (snd g - snd c)))"

definition diag_node :: "pos \<Rightarrow> pos \<Rightarrow> pos" where
  "diag_node c g = (fst c + sgn (fst g - fst c), snd c + sgn (snd g - snd c))"

definition fwd :: "pos \<Rightarrow> pos \<Rightarrow> pos \<Rightarrow> bool" where
  "fwd c g q =
     ((avail AX c g \<and> q = fwd_node AX c g) \<or> (avail AY c g \<and> q = fwd_node AY c g) \<or>
      (avail AX c g \<and> avail AY c g \<and> q = diag_node c g))"

definition adist :: "axis \<Rightarrow> pos \<Rightarrow> pos \<Rightarrow> int" where
  "adist a p g = (case a of AX \<Rightarrow> \<bar>fst p - fst g\<bar> | AY \<Rightarrow> \<bar>snd p - snd g\<bar>)"

definition between :: "pos \<Rightarrow> pos \<Rightarrow> pos \<Rightarrow> bool" where
  "between s c g =
     (adist AX s c + adist AX c g = adist AX s g \<and> adist AY s c + adist AY c g = adist AY s g)"

subsection \<open>The states of a run on a grid without blocked cells\<close>




section \<open>Properties of the program\<close>

subsection \<open>The constructor and the interpreter\<close>

lemma A_Star_init_eq:
  "A_Star_init w h start goal =
     (if (- int w \<le> fst start \<and> fst start < int w \<and> - int h \<le> snd start \<and> snd start < int h) \<and>
         (- int w \<le> fst goal \<and> fst goal < int w \<and> - int h \<le> snd goal \<and> snd goal < int h)
      then Inr (A_Star_fields w h start goal) else Inl IndexError)"
  by (simp add: A_Star_init_def init_matplotlib_figure_def squares_index_ok_def A_Star_fields_def
      GridNodes_init_def initial_heap_def Node_init_def)

lemma A_Star_init_Inr:
  "A_Star_init w h start goal = Inr s \<Longrightarrow> s = A_Star_fields w h start goal"
  by (simp add: A_Star_init_eq split: if_splits)

lemma node_hash_unfold:
  "node_hash n H hp r =
     (if n < 2 then None
      else
        case parent_node (hp r) of
          None \<Rightarrow>
            Some (tuple_hash H (x_pos (hp r), y_pos (hp r), h_cost (hp r), h_cost (hp r),
                                F_cost (hp r), None))
        | Some p \<Rightarrow>
            Option.bind (node_hash (n - 1) H hp p)
              (\<lambda>ph. Some (tuple_hash H (x_pos (hp r), y_pos (hp r), h_cost (hp r), h_cost (hp r),
                                        F_cost (hp r), Some ph))))"
  by (cases n; cases "parent_node (hp r)") auto

subsection \<open>The grid accessor\<close>

lemma grid_nth: "a < w \<Longrightarrow> b < h \<Longrightarrow> grid (GridNodes_init w h) ! a ! b = GridRef a b"
  by (simp add: GridNodes_init_def)

lemma get_node_init:
  "get_node (GridNodes_init w h) x y =
     (if 0 \<le> x \<and> x < int w \<and> 0 \<le> y \<and> y < int h then Some (GridRef (nat x) (nat y)) else None)"
proof (cases "0 \<le> x \<and> x < int w \<and> 0 \<le> y \<and> y < int h")
  case True
  then have "nat x < w" "nat y < h" by auto
  then have "grid (GridNodes_init w h) ! nat x ! nat y = GridRef (nat x) (nat y)"
    by (rule grid_nth)
  with True show ?thesis by (auto simp: get_node_def GridNodes_init_def)
next
  case False
  then show ?thesis by (auto simp: get_node_def GridNodes_init_def)
qed

text \<open>
  Claim C7. For every pair of integers \<open>(x, y)\<close>, \<open>get_node\<close> on the grid built by
  \<open>GridNodes.__init__\<close> returns \<open>None\<close> exactly when \<open>(x, y)\<close> is outside
  \<open>[0, width) \<times> [0, height)\<close>; inside, it returns the node stored at \<open>[x][y]\<close>, whose
  coordinates are \<open>(x, y)\<close> and which is returned for no other pair.
\<close>

theorem get_node_contract:
  "(get_node (GridNodes_init w h) x y = None) = (\<not> (0 \<le> x \<and> x < int w \<and> 0 \<le> y \<and> y < int h)) \<and>
   (0 \<le> x \<and> x < int w \<and> 0 \<le> y \<and> y < int h \<longrightarrow>
      (\<exists>r. get_node (GridNodes_init w h) x y = Some r \<and>
           grid (GridNodes_init w h) ! nat x ! nat y = r \<and>
           x_pos (initial_heap start goal r) = x \<and> y_pos (initial_heap start goal r) = y \<and>
           (\<forall>x' y'. get_node (GridNodes_init w h) x' y' = Some r \<longrightarrow> x' = x \<and> y' = y)))"
  by (auto simp: get_node_init grid_nth initial_heap_def Node_init_def split: if_splits)

theorem get_node_contract_witness:
  "get_node (GridNodes_init 3 2) 2 1 = Some (GridRef 2 1) \<and>
   get_node (GridNodes_init 3 2) 3 1 = None \<and>
   get_node (GridNodes_init 3 2) 2 (-1) = None \<and>
   x_pos (initial_heap (0, 0) (2, 1) (GridRef 2 1)) = 2"
  using get_node_contract [of 3 2 2 1 "(0, 0)" "(2, 1)"] get_node_contract [of 3 2 3 1]
    get_node_contract [of 3 2 2 "-1"]
  by (auto simp: get_node_init initial_heap_def Node_init_def)

subsection \<open>Extraction from the frontier\<close>

lemma not_node_lt: "(\<not> node_lt b a) = node_le a b"
  by (auto simp: node_lt_def node_le_def)

lemma node_le_trans: "node_le a b \<Longrightarrow> node_le b c \<Longrightarrow> node_le a c"
  by (auto simp: node_le_def)

lemma node_le_total: "node_le a b \<or> node_le b a"
  by (auto simp: node_le_def)

lemma set_insort_node: "set (insort_node hp r qs) = insert r (set qs)"
  by (induction qs) auto

lemma set_sort_nodes: "set (sort_nodes hp rs) = set rs"
  by (induction rs) (auto simp: sort_nodes_def set_insort_node)

lemma sorted_insort_node:
  "sorted_wrt (\<lambda>a b. node_le (hp a) (hp b)) qs \<Longrightarrow>
   sorted_wrt (\<lambda>a b. node_le (hp a) (hp b)) (insort_node hp r qs)"
proof (induction qs)
  case Nil
  then show ?case by simp
next
  case (Cons q qs)
  show ?case
  proof (cases "node_lt (hp q) (hp r)")
    case True
    then have "node_le (hp q) (hp r)" by (auto simp: node_lt_def node_le_def split: if_splits)
    with Cons True show ?thesis by (auto simp: set_insort_node)
  next
    case False
    then have qr: "node_le (hp r) (hp q)" by (simp add: not_node_lt)
    have "\<forall>x\<in>set qs. node_le (hp r) (hp x)"
      using Cons.prems qr by (auto intro: node_le_trans)
    with Cons.prems qr False show ?thesis by auto
  qed
qed

lemma sorted_sort_nodes: "sorted_wrt (\<lambda>a b. node_le (hp a) (hp b)) (sort_nodes hp rs)"
proof (induction rs)
  case Nil
  then show ?case by (simp add: sort_nodes_def)
next
  case (Cons r rs)
  then show ?case using sorted_insort_node [of hp "sort_nodes hp rs" r]
    by (simp add: sort_nodes_def)
qed

lemma sort_nodes_head_le:
  assumes "sort_nodes hp rs = c # rest" and "n \<in> set rs"
  shows "node_le (hp c) (hp n)"
proof -
  have srt: "sorted_wrt (\<lambda>a b. node_le (hp a) (hp b)) (c # rest)"
    using sorted_sort_nodes [of hp rs] assms(1) by simp
  have "n \<in> set (c # rest)" using assms set_sort_nodes [of hp rs] by simp
  then show ?thesis using srt by (auto simp: node_le_def)
qed

text \<open>
  Claim C5. The node that the sort followed by \<open>pop(0)\<close> extracts is in the frontier and
  is minimal there: no node of the frontier is smaller under \<open>__lt__\<close>, that is, none has
  a smaller \<open>F_cost\<close>, or the same \<open>F_cost\<close> and a smaller \<open>g_cost\<close>.
\<close>

theorem pop_first_minimal:
  assumes "pop_first s = Some (current_node, s1)"
  shows "current_node \<in> set (openList s) \<and>
         (\<forall>n\<in>set (openList s).
            \<not> node_lt (heap s n) (heap s current_node) \<and>
            (F_cost (heap s current_node) < F_cost (heap s n) \<or>
             (F_cost (heap s current_node) = F_cost (heap s n) \<and>
              g_cost (heap s current_node) \<le> g_cost (heap s n))))"
proof -
  obtain rest where srt: "sort_nodes (heap s) (openList s) = current_node # rest"
    using assms by (auto simp: pop_first_def split: list.splits)
  have "current_node \<in> set (sort_nodes (heap s) (openList s))" by (simp add: srt)
  then have mem: "current_node \<in> set (openList s)" by (simp add: set_sort_nodes)
  have "\<forall>n\<in>set (openList s). node_le (heap s current_node) (heap s n)"
    using sort_nodes_head_le [OF srt] by blast
  then show ?thesis using mem by (auto simp: not_node_lt) (auto simp: node_le_def)
qed

theorem pop_first_minimal_witness:
  "pop_first ((A_Star_fields 2 2 (0, 0) (1, 1))
      \<lparr>openList := [GridRef 0 1, GridRef 1 0],
       heap := (initial_heap (0, 0) (1, 1))
         (GridRef 0 1 := \<lparr>x_pos = 0, y_pos = 1, parent_node = None, g_cost = 3, h_cost = 1\<rparr>,
          GridRef 1 0 := \<lparr>x_pos = 1, y_pos = 0, parent_node = None, g_cost = 1, h_cost = 1\<rparr>)\<rparr>) =
   Some (GridRef 1 0, (A_Star_fields 2 2 (0, 0) (1, 1))
      \<lparr>openList := [GridRef 0 1],
       heap := (initial_heap (0, 0) (1, 1))
         (GridRef 0 1 := \<lparr>x_pos = 0, y_pos = 1, parent_node = None, g_cost = 3, h_cost = 1\<rparr>,
          GridRef 1 0 := \<lparr>x_pos = 1, y_pos = 0, parent_node = None, g_cost = 1, h_cost = 1\<rparr>)\<rparr>) \<and>
   \<not> node_lt \<lparr>x_pos = 0, y_pos = 1, parent_node = None, g_cost = 3, h_cost = 1\<rparr>
              \<lparr>x_pos = 1, y_pos = 0, parent_node = None, g_cost = 1, h_cost = 1\<rparr>"
proof -
  let ?s = "(A_Star_fields 2 2 (0, 0) (1, 1))
      \<lparr>openList := [GridRef 0 1, GridRef 1 0],
       heap := (initial_heap (0, 0) (1, 1))
         (GridRef 0 1 := \<lparr>x_pos = 0, y_pos = 1, parent_node = None, g_cost = 3, h_cost = 1\<rparr>,
          GridRef 1 0 := \<lparr>x_pos = 1, y_pos = 0, parent_node = None, g_cost = 1, h_cost = 1\<rparr>)\<rparr>"
  have pop: "pop_first ?s = Some (GridRef 1 0, ?s\<lparr>openList := [GridRef 0 1]\<rparr>)"
    by (simp add: pop_first_def sort_nodes_def node_lt_def F_cost_def A_Star_fields_def)
  from pop_first_minimal [OF pop] pop show ?thesis
    by (simp add: A_Star_fields_def)
qed

subsection \<open>Neighbours are never None\<close>

lemma valid_nodes_loop_no_None:
  "None \<notin> set acc \<Longrightarrow> valid_nodes_loop H s c offs acc = Inr vs \<Longrightarrow> None \<notin> set vs"
proof (induction offs arbitrary: acc)
  case Nil
  then show ?case by simp
next
  case (Cons ij offs)
  obtain i j where ij: "ij = (i, j)" by (cases ij)
  from Cons.prems show ?case
    unfolding ij
    by (auto split: if_splits option.splits dest: Cons.IH [rotated])
qed

lemma valid_nodes_loop_error:
  "valid_nodes_loop H s c offs acc = Inl e \<Longrightarrow> e = RecursionError"
proof (induction offs arbitrary: acc)
  case Nil
  then show ?case by simp
next
  case (Cons ij offs)
  obtain i j where ij: "ij = (i, j)" by (cases ij)
  from Cons.prems show ?case
    unfolding ij
    by (auto split: if_splits option.splits dest: Cons.IH)
qed

lemma visit_Some: "\<exists>s1. visit c s (Some r) = Inr s1"
  by (cases "r \<in> set (openList s)") (simp_all add: visit_def Let_def)

lemma visit_all_no_None:
  "None \<notin> set vs \<Longrightarrow> visit_all c s vs \<noteq> Inl (e, s')"
proof (induction vs arbitrary: s)
  case Nil
  then show ?case by simp
next
  case (Cons v vs)
  then obtain r where v: "v = Some r" by (cases v) auto
  obtain s1 where s1: "visit c s (Some r) = Inr s1"
    using visit_Some by blast
  from Cons show ?case by (simp add: v s1)
qed

lemma iteration_no_NoValidNode: "iteration H s \<noteq> Raised NoValidNode s'"
proof
  assume a: "iteration H s = Raised NoValidNode s'"
  then show False
    unfolding iteration_def
    by (auto simp: get_valid_nodes_def split: if_splits option.splits prod.splits sum.splits
        dest: valid_nodes_loop_error valid_nodes_loop_no_None [rotated] visit_all_no_None [rotated])
qed

lemma run_loop_no_NoValidNode: "run_loop fuel H s \<noteq> Some (Raised NoValidNode s')"
proof (induction fuel arbitrary: s)
  case 0
  then show ?case by simp
next
  case (Suc k)
  show ?case
    using Suc [of] iteration_no_NoValidNode [of H s s']
    by (auto split: result.splits)
qed

text \<open>
  Claim C10. The list that \<open>get_valid_nodes\<close> returns never holds \<open>None\<close>, so the
  exception raised in the loop over the neighbours for a \<open>None\<close> element is never raised:
  not by one pass through the loop, and not by the whole run, from any state.
\<close>

theorem valid_nodes_never_None:
  "(get_valid_nodes H s current_node = Inr all_valid_nodes \<longrightarrow> None \<notin> set all_valid_nodes) \<and>
   iteration H s \<noteq> Raised NoValidNode s' \<and>
   run_loop fuel H s \<noteq> Some (Raised NoValidNode s')"
  using valid_nodes_loop_no_None [of "[]" H s current_node offsets all_valid_nodes]
    iteration_no_NoValidNode run_loop_no_NoValidNode
  by (auto simp: get_valid_nodes_def split: if_splits)

lemma get_valid_nodes_ex:
  "get_valid_nodes sample_python (key_pressed (A_Star_fields 2 2 (0, 0) (1, 1))) StartRef =
     Inr [Some (GridRef 0 1), Some (GridRef 1 0), Some (GridRef 1 1)]"
  by (simp add: get_valid_nodes_def offsets_def key_pressed_def push_start_def A_Star_fields_def
      get_node_init node_hash_unfold sample_python_def initial_heap_def Node_init_def)

theorem valid_nodes_never_None_witness:
  "get_valid_nodes sample_python (key_pressed (A_Star_fields 2 2 (0, 0) (1, 1))) StartRef =
     Inr [Some (GridRef 0 1), Some (GridRef 1 0), Some (GridRef 1 1)] \<and>
   None \<notin> set [Some (GridRef 0 1), Some (GridRef 1 0), Some (GridRef 1 1)]"
  using valid_nodes_never_None [of sample_python "key_pressed (A_Star_fields 2 2 (0, 0) (1, 1))"
      StartRef "[Some (GridRef 0 1), Some (GridRef 1 0), Some (GridRef 1 1)]"]
    get_valid_nodes_ex
  by simp

subsection \<open>Blocked cells never cover start or goal\<close>

lemma wf_state_init: "wf_state w h start goal (A_Star_fields w h start goal)"
  by (simp add: wf_state_def A_Star_fields_def)

lemma set_remove_bloc: "set (remove_bloc i j ns) \<subseteq> set ns"
  by (induction ns) auto

lemma click_square_wf:
  "wf_state w h start goal s \<Longrightarrow> click_square s i j = Inr s1 \<Longrightarrow>
   wf_state w h start goal s1 \<and> openList s1 = openList s \<and> A_started s1 = A_started s"
  by (cases start; cases goal)
     (auto simp: wf_state_def click_square_def initial_heap_def Node_init_def split: if_splits)

lemma unclick_square_wf:
  "wf_state w h start goal s \<Longrightarrow> unclick_square s i j = Inr s1 \<Longrightarrow>
   wf_state w h start goal s1 \<and> openList s1 = openList s \<and> A_started s1 = A_started s"
  using set_remove_bloc [of i j "bloc_nodes s"]
  by (auto simp: wf_state_def unclick_square_def split: if_splits)

lemma mouse_button_press_wf:
  assumes "wf_state w h start goal s" and "mouse_button_press s event = Inr s1"
  shows "wf_state w h start goal s1 \<and> openList s1 = openList s \<and> A_started s1 = A_started s"
proof (cases "A_started s \<or> xdata event = None \<or> ydata event = None")
  case True
  with assms show ?thesis by (auto simp: mouse_button_press_def)
next
  case False
  then obtain i j where ij: "xdata event = Some i" "ydata event = Some j" by auto
  show ?thesis
  proof (cases "button event = 1 \<and> inaxes event")
    case True
    then obtain s0 where c: "click_square s i j = Inr s0"
      using assms(2) False ij by (auto simp: mouse_button_press_def Let_def split: sum.splits)
    from click_square_wf [OF assms(1) c] assms(2) False ij True c show ?thesis
      by (auto simp: mouse_button_press_def Let_def)
  next
    case b1: False
    show ?thesis
    proof (cases "button event = 3 \<and> inaxes event")
      case True
      with assms(2) False ij b1 have "unclick_square s i j = Inr s1"
        by (auto simp: mouse_button_press_def Let_def)
      from unclick_square_wf [OF assms(1) this] show ?thesis .
    next
      case False
      with assms \<open>\<not> (A_started s \<or> xdata event = None \<or> ydata event = None)\<close> ij b1
      show ?thesis by (auto simp: mouse_button_press_def Let_def)
    qed
  qed
qed

lemma mouse_events_wf:
  "wf_state w h start goal s \<Longrightarrow>
   wf_state w h start goal (mouse_events s events) \<and>
   openList (mouse_events s events) = openList s \<and>
   A_started (mouse_events s events) = A_started s"
proof (induction events arbitrary: s)
  case Nil
  then show ?case by simp
next
  case (Cons e es)
  show ?case
  proof (cases "mouse_button_press s e")
    case (Inl err)
    with Cons show ?thesis by simp
  next
    case (Inr s1)
    from mouse_button_press_wf [OF Cons.prems Inr] Cons.IH [of s1] Inr show ?thesis by simp
  qed
qed

text \<open>
  Claim C8. Whatever mouse events came before, a click on the start or on the goal
  coordinate is a no-op: \<open>_click_square\<close> and the whole mouse handler return the state
  unchanged, so the blocked set is unchanged, and the blocked set holds neither the
  start nor the goal coordinate.
\<close>

theorem click_start_goal_noop:
  assumes "A_Star_init w h start goal = Inr s0"
    and "s = mouse_events s0 events"
    and "(i, j) = start \<or> (i, j) = goal"
  shows "click_square s i j = Inr s \<and>
         mouse_button_press s \<lparr>button = 1, inaxes = True, xdata = Some i, ydata = Some j\<rparr> = Inr s \<and>
         (\<forall>n\<in>set (bloc_nodes s). (x_pos n, y_pos n) \<noteq> start \<and> (x_pos n, y_pos n) \<noteq> goal)"
proof -
  have wf: "wf_state w h start goal s"
    using mouse_events_wf [OF wf_state_init] assms(2) A_Star_init_Inr [OF assms(1)] by simp
  have c: "click_square s i j = Inr s"
    using wf assms(3)
    by (cases start; cases goal) (auto simp: wf_state_def click_square_def initial_heap_def Node_init_def)
  then have "mouse_button_press s \<lparr>button = 1, inaxes = True, xdata = Some i, ydata = Some j\<rparr> = Inr s"
    by (simp add: mouse_button_press_def Let_def)
  with c wf show ?thesis by (simp add: wf_state_def)
qed

theorem click_start_goal_noop_witness:
  "A_Star_init 3 3 (0, 0) (2, 2) = Inr (A_Star_fields 3 3 (0, 0) (2, 2)) \<and>
   bloc_nodes (mouse_events (A_Star_fields 3 3 (0, 0) (2, 2))
      [\<lparr>button = 1, inaxes = True, xdata = Some 1, ydata = Some 1\<rparr>,
       \<lparr>button = 1, inaxes = True, xdata = Some 2, ydata = Some 2\<rparr>]) = [Node_init 1 1] \<and>
   click_square (mouse_events (A_Star_fields 3 3 (0, 0) (2, 2))
      [\<lparr>button = 1, inaxes = True, xdata = Some 1, ydata = Some 1\<rparr>,
       \<lparr>button = 1, inaxes = True, xdata = Some 2, ydata = Some 2\<rparr>]) 0 0 =
   Inr (mouse_events (A_Star_fields 3 3 (0, 0) (2, 2))
      [\<lparr>button = 1, inaxes = True, xdata = Some 1, ydata = Some 1\<rparr>,
       \<lparr>button = 1, inaxes = True, xdata = Some 2, ydata = Some 2\<rparr>])"
  using click_start_goal_noop [where w = 3 and h = 3 and start = "(0, 0)" and goal = "(2, 2)"
      and ?s0.0 = "A_Star_fields 3 3 (0, 0) (2, 2)"
      and events = "[\<lparr>button = 1, inaxes = True, xdata = Some 1, ydata = Some 1\<rparr>,
        \<lparr>button = 1, inaxes = True, xdata = Some 2, ydata = Some 2\<rparr>]" and i = 0 and j = 0,
      OF _ refl]
  by (simp add: A_Star_init_eq mouse_button_press_def click_square_def unclick_square_def
      squares_index_ok_def A_Star_fields_def GridNodes_init_def initial_heap_def Node_init_def)

subsection \<open>The frontier test is a test on coordinates\<close>

lemma visit_frame:
  assumes "visit c s (Some v) = Inr s1"
  shows "grid_nodes s1 = grid_nodes s \<and> start_node s1 = start_node s \<and>
         end_node s1 = end_node s \<and> bloc_nodes s1 = bloc_nodes s \<and>
         A_started s1 = A_started s \<and> closedSet s1 = closedSet s \<and>
         (\<forall>r. x_pos (heap s1 r) = x_pos (heap s r) \<and> y_pos (heap s1 r) = y_pos (heap s r)) \<and>
         set (openList s1) = insert v (set (openList s))"
  using assms by (cases "v \<in> set (openList s)") (auto simp: visit_def Let_def)
















lemmas run_defs = key_pressed_def push_start_def A_Star_fields_def iteration_def pop_first_def
  sort_nodes_def closedSet_add_def get_valid_nodes_def offsets_def get_node_init
  node_hash_unfold initial_heap_def Node_init_def visit_def Let_def node_lt_def F_cost_def
  get_distance_def


subsection \<open>The start node as it is pushed\<close>

lemma mouse_button_press_heap:
  "mouse_button_press s event = Inr s1 \<Longrightarrow> heap s1 = heap s"
  by (auto simp: mouse_button_press_def click_square_def unclick_square_def Let_def
      split: if_splits sum.splits)

lemma mouse_events_heap: "heap (mouse_events s events) = heap s"
proof (induction events arbitrary: s)
  case Nil
  then show ?case by simp
next
  case (Cons e es)
  then show ?case
    by (cases "mouse_button_press s e") (simp_all add: mouse_button_press_heap)
qed

lemma mouse_events_init:
  "openList (mouse_events (A_Star_fields w h start goal) events) = [] \<and>
   A_started (mouse_events (A_Star_fields w h start goal) events) = False \<and>
   start_node (mouse_events (A_Star_fields w h start goal) events) = StartRef \<and>
   end_node (mouse_events (A_Star_fields w h start goal) events) = EndRef \<and>
   heap (mouse_events (A_Star_fields w h start goal) events) = initial_heap start goal"
  using mouse_events_wf [OF wf_state_init, of w h start goal events]
  by (simp add: mouse_events_heap wf_state_def) (simp add: A_Star_fields_def)

text \<open>
  Claim C2 as stated fails: in the script's own run the node pushed for the start has
  \<open>h_cost = 0\<close>, while the heuristic from start to goal is 20.
\<close>

theorem start_node_h_cost_counterexample:
  "A_Star_init 15 15 (2, 2) (12, 12) = Inr (A_Star_fields 15 15 (2, 2) (12, 12)) \<and>
   openList (key_pressed (A_Star_fields 15 15 (2, 2) (12, 12))) = [StartRef] \<and>
   h_cost (heap (key_pressed (A_Star_fields 15 15 (2, 2) (12, 12))) StartRef) = 0 \<and>
   get_distance (heap (key_pressed (A_Star_fields 15 15 (2, 2) (12, 12))) StartRef)
                (heap (key_pressed (A_Star_fields 15 15 (2, 2) (12, 12))) EndRef) = 20"
  by (simp add: A_Star_init_eq) (simp add: run_defs)

text \<open>
  Claim C2, amended. On entry into the loop the frontier holds the start node alone, as
  \<open>Node.__init__\<close> made it: \<open>g_cost = 0\<close>, \<open>h_cost = 0\<close> (the heuristic is not computed for
  it), no parent, at the start coordinate.
\<close>

theorem start_node_pushed_as_constructed:
  assumes "A_Star_init w h start goal = Inr s0"
  shows "openList (key_pressed (mouse_events s0 events)) = [StartRef] \<and>
   g_cost (heap (key_pressed (mouse_events s0 events)) StartRef) = 0 \<and>
   h_cost (heap (key_pressed (mouse_events s0 events)) StartRef) = 0 \<and>
   parent_node (heap (key_pressed (mouse_events s0 events)) StartRef) = None \<and>
   x_pos (heap (key_pressed (mouse_events s0 events)) StartRef) = fst start \<and>
   y_pos (heap (key_pressed (mouse_events s0 events)) StartRef) = snd start"
  using mouse_events_init [of w h start goal events]
  by (simp add: A_Star_init_Inr [OF assms] key_pressed_def push_start_def initial_heap_def
      Node_init_def)

theorem start_node_pushed_as_constructed_witness:
  "A_Star_init 15 15 (2, 2) (12, 12) = Inr (A_Star_fields 15 15 (2, 2) (12, 12)) \<and>
   openList (key_pressed (mouse_events (A_Star_fields 15 15 (2, 2) (12, 12)) [])) = [StartRef] \<and>
   g_cost (heap (key_pressed (mouse_events (A_Star_fields 15 15 (2, 2) (12, 12)) [])) StartRef) = 0 \<and>
   h_cost (heap (key_pressed (mouse_events (A_Star_fields 15 15 (2, 2) (12, 12)) [])) StartRef) = 0"
  using start_node_pushed_as_constructed [where w = 15 and h = 15 and start = "(2, 2)"
      and goal = "(12, 12)" and ?s0.0 = "A_Star_fields 15 15 (2, 2) (12, 12)" and events = "[]"]
  by (simp add: A_Star_init_eq)

subsection \<open>The space bar checks nothing\<close>

lemma visit_all_A_started:
  "(visit_all c s vs = Inr s1 \<longrightarrow> A_started s1 = A_started s) \<and>
   (visit_all c s vs = Inl (e, s1) \<longrightarrow> A_started s1 = A_started s)"
proof (induction vs arbitrary: s)
  case Nil
  then show ?case by simp
next
  case (Cons x vs)
  show ?case
  proof (cases x)
    case None
    then show ?thesis by (simp add: visit_def)
  next
    case (Some v)
    obtain s0 where v: "visit c s (Some v) = Inr s0" using visit_Some by blast
    from visit_frame [OF v] Cons [of s0] show ?thesis by (simp add: Some v)
  qed
qed

lemma iteration_A_started: "A_started (state_of (iteration H s)) = A_started s"
proof (cases "pop_first s")
  case None
  then show ?thesis by (simp add: iteration_def)
next
  case (Some a)
  obtain c s1 where a: "a = (c, s1)" by (cases a)
  have pop: "pop_first s = Some (c, s1)" using Some a by simp
  then have a1: "A_started s1 = A_started s"
    by (auto simp: pop_first_def split: list.splits)
  show ?thesis
  proof (cases "closedSet_add H s1 c")
    case None
    then show ?thesis using pop a1 by (simp add: iteration_def)
  next
    case cl: (Some s2)
    then have a2: "A_started s2 = A_started s1"
      by (auto simp: closedSet_add_def split: option.splits)
    show ?thesis
    proof (cases "get_valid_nodes H s2 c")
      case (Inl e)
      then show ?thesis using pop cl a1 a2 by (simp add: iteration_def)
    next
      case gv: (Inr vs)
      show ?thesis
      proof (cases "visit_all c s2 vs")
        case (Inl p)
        obtain e s3 where p: "p = (e, s3)" by (cases p)
        with Inl visit_all_A_started [of c s2 vs s3 e] have "A_started s3 = A_started s2" by simp
        then show ?thesis using pop cl gv Inl p a1 a2 by (simp add: iteration_def)
      next
        case (Inr s3)
        with visit_all_A_started [of c s2 vs s3] have "A_started s3 = A_started s2" by simp
        then show ?thesis using pop cl gv Inr a1 a2 by (simp add: iteration_def)
      qed
    qed
  qed
qed

lemma run_loop_A_started:
  "run_loop fuel H s = Some r \<Longrightarrow> A_started (state_of r) = A_started s"
proof (induction fuel arbitrary: s)
  case 0
  then show ?case by simp
next
  case (Suc k)
  show ?case
  proof (cases "iteration H s")
    case (Running s1)
    with Suc.prems have "run_loop k H s1 = Some r" by simp
    from Suc.IH [OF this] iteration_A_started [of H s] Running show ?thesis by simp
  next
    case (Found x s1)
    with Suc.prems iteration_A_started [of H s] show ?thesis by auto
  next
    case (Exhausted s1)
    with Suc.prems iteration_A_started [of H s] show ?thesis by auto
  next
    case (Raised e s1)
    with Suc.prems iteration_A_started [of H s] show ?thesis by auto
  qed
qed

text \<open>
  Claim C1 as stated fails. With start equal to goal the space bar raises nothing, sets
  \<open>A_started\<close> and the run returns at once as found. With the start at (-1, -1), outside
  the grid, the constructor returns its object (numpy counts a negative index from the
  end), the space bar sets \<open>A_started\<close>, and the first pass through the loop runs to its
  end.
\<close>

theorem begin_start_equals_goal_counterexample:
  "A_Star_init 15 15 (2, 2) (2, 2) = Inr (A_Star_fields 15 15 (2, 2) (2, 2)) \<and>
   on_key_press (Suc 0) sample_python (A_Star_fields 15 15 (2, 2) (2, 2)) '' '' =
     Some (Found EndRef ((A_Star_fields 15 15 (2, 2) (2, 2))\<lparr>A_started := True\<rparr>)) \<and>
   A_Star_init 3 3 (- 1, - 1) (2, 2) = Inr (A_Star_fields 3 3 (- 1, - 1) (2, 2)) \<and>
   A_started (key_pressed (A_Star_fields 3 3 (- 1, - 1) (2, 2))) \<and>
   iterations (Suc 0) sample_python (key_pressed (A_Star_fields 3 3 (- 1, - 1) (2, 2))) \<noteq> None"
  by (simp add: A_Star_init_eq) (simp add: on_key_press_def run_A_star_def run_defs sample_python_def)

text \<open>
  Claim C1, amended. The only check is the one that numpy makes in the constructor: a
  start or a goal outside \<open>[-width, width) \<times> [-height, height)\<close> ends the constructor
  with \<open>IndexError\<close>, so there is no object whose space bar could be pressed. For every
  other start and goal, equal or not, inside the grid or at a negative index, and after
  any mouse events (none of which blocks the start or the goal),
  \<open>_on_key_press\<close> validates nothing and raises no configuration error:
  it sets \<open>A_started\<close> and runs the loop of \<open>run_A_star\<close> on the frontier that holds the
  start node alone, at the start coordinate. Whatever the run returns, \<open>A_started\<close> is
  set in its state; when start equals goal it returns in its first pass as found, with
  no other change of the state.
\<close>

theorem key_press_no_validation:
  "A_Star_init w h start goal =
     (if (- int w \<le> fst start \<and> fst start < int w \<and> - int h \<le> snd start \<and> snd start < int h) \<and>
         (- int w \<le> fst goal \<and> fst goal < int w \<and> - int h \<le> snd goal \<and> snd goal < int h)
      then Inr (A_Star_fields w h start goal) else Inl IndexError) \<and>
   (A_Star_init w h start goal = Inr s \<and> s0 = mouse_events s events \<longrightarrow>
      on_key_press fuel H s0 '' '' =
        run_loop fuel H (s0\<lparr>A_started := True, openList := [start_node s0]\<rparr>) \<and>
      start_node s0 = StartRef \<and>
      (x_pos (heap s0 StartRef), y_pos (heap s0 StartRef)) = start \<and>
      (\<forall>n\<in>set (bloc_nodes s0). (x_pos n, y_pos n) \<noteq> start \<and> (x_pos n, y_pos n) \<noteq> goal) \<and>
      (on_key_press fuel H s0 '' '' = Some r \<longrightarrow> A_started (state_of r)) \<and>
      (start = goal \<longrightarrow>
         on_key_press (Suc fuel) H s0 '' '' = Some (Found EndRef (s0\<lparr>A_started := True\<rparr>))))"
proof (intro conjI impI)
  show "A_Star_init w h start goal =
     (if (- int w \<le> fst start \<and> fst start < int w \<and> - int h \<le> snd start \<and> snd start < int h) \<and>
         (- int w \<le> fst goal \<and> fst goal < int w \<and> - int h \<le> snd goal \<and> snd goal < int h)
      then Inr (A_Star_fields w h start goal) else Inl IndexError)"
    by (rule A_Star_init_eq)
next
  assume a: "A_Star_init w h start goal = Inr s \<and> s0 = mouse_events s events"
  then have s0: "s0 = mouse_events (A_Star_fields w h start goal) events"
    using A_Star_init_Inr by blast
  from mouse_events_init [of w h start goal events] s0
  have o0: "openList s0 = []" and a0: "A_started s0 = False" and st: "start_node s0 = StartRef"
    and en: "end_node s0 = EndRef" and hp: "heap s0 = initial_heap start goal" by simp_all
  have kp: "key_pressed s0 = s0\<lparr>A_started := True, openList := [start_node s0]\<rparr>"
    by (simp add: key_pressed_def push_start_def o0)
  have run: "on_key_press fuel H s0 '' '' = run_loop fuel H (key_pressed s0)" for fuel
    by (simp add: on_key_press_def run_A_star_def key_pressed_def a0)
  show "on_key_press fuel H s0 '' '' =
        run_loop fuel H (s0\<lparr>A_started := True, openList := [start_node s0]\<rparr>)"
    by (simp add: run kp)
  show "start_node s0 = StartRef" by (rule st)
  show "(x_pos (heap s0 StartRef), y_pos (heap s0 StartRef)) = start"
    by (simp add: hp initial_heap_def Node_init_def)
  show "\<forall>n\<in>set (bloc_nodes s0). (x_pos n, y_pos n) \<noteq> start \<and> (x_pos n, y_pos n) \<noteq> goal"
    using mouse_events_wf [OF wf_state_init, of w h start goal events]
    by (simp add: s0 wf_state_def)
  show "A_started (state_of r)" if "on_key_press fuel H s0 '' '' = Some r"
    using run_loop_A_started [of fuel H "key_pressed s0" r] that
    by (auto simp: run) (simp add: key_pressed_def push_start_def)
  have eq: "s0\<lparr>A_started := True, openList := []\<rparr> = s0\<lparr>A_started := True\<rparr>"
    using o0 by (cases s0) simp
  have "iteration H (key_pressed s0) = Found EndRef (s0\<lparr>A_started := True\<rparr>)" if "start = goal"
    using that eq
    by (simp add: iteration_def key_pressed_def push_start_def pop_first_def sort_nodes_def
        o0 st en hp initial_heap_def Node_init_def)
  then show "on_key_press (Suc fuel) H s0 '' '' = Some (Found EndRef (s0\<lparr>A_started := True\<rparr>))"
    if "start = goal"
    using that by (simp add: run)
qed

theorem key_press_no_validation_witness:
  "A_Star_init 3 3 (0, 3) (2, 2) = Inl IndexError \<and>
   A_Star_init 3 3 (- 1, - 1) (2, 2) = Inr (A_Star_fields 3 3 (- 1, - 1) (2, 2)) \<and>
   on_key_press (Suc 0) sample_python (mouse_events (A_Star_fields 3 3 (- 1, - 1) (2, 2)) []) '' '' =
     run_loop (Suc 0) sample_python
       ((A_Star_fields 3 3 (- 1, - 1) (2, 2))\<lparr>A_started := True, openList := [StartRef]\<rparr>) \<and>
   A_Star_init 3 3 (1, 1) (1, 1) = Inr (A_Star_fields 3 3 (1, 1) (1, 1)) \<and>
   on_key_press (Suc 0) sample_python (mouse_events (A_Star_fields 3 3 (1, 1) (1, 1)) []) '' '' =
     Some (Found EndRef ((A_Star_fields 3 3 (1, 1) (1, 1))\<lparr>A_started := True\<rparr>)) \<and>
   A_started (state_of (Found EndRef ((A_Star_fields 3 3 (1, 1) (1, 1))\<lparr>A_started := True\<rparr>)))"
  using key_press_no_validation [where w = 3 and h = 3 and start = "(0, 3)" and goal = "(2, 2)"
      and s = "A_Star_fields 3 3 (0, 3) (2, 2)" and events = "[]"
      and ?s0.0 = "A_Star_fields 3 3 (0, 3) (2, 2)" and H = sample_python and fuel = 0
      and r = "Running (A_Star_fields 3 3 (0, 3) (2, 2))"]
    key_press_no_validation [where w = 3 and h = 3 and start = "(- 1, - 1)" and goal = "(2, 2)"
      and s = "A_Star_fields 3 3 (- 1, - 1) (2, 2)" and events = "[]"
      and ?s0.0 = "A_Star_fields 3 3 (- 1, - 1) (2, 2)" and H = sample_python and fuel = "Suc 0"
      and r = "Running (A_Star_fields 3 3 (- 1, - 1) (2, 2))"]
    key_press_no_validation [where w = 3 and h = 3 and start = "(1, 1)" and goal = "(1, 1)"
      and s = "A_Star_fields 3 3 (1, 1) (1, 1)" and events = "[]"
      and ?s0.0 = "A_Star_fields 3 3 (1, 1) (1, 1)" and H = sample_python and fuel = 0
      and r = "Found EndRef ((A_Star_fields 3 3 (1, 1) (1, 1))\<lparr>A_started := True\<rparr>)"]
  by simp

subsection \<open>Costs of nodes in the frontier are overwritten\<close>

lemma four_frames:
  assumes "4 \<le> frames H"
  obtains d where "frames H = Suc (Suc (Suc (Suc d)))"
proof -
  from assms have "frames H = Suc (Suc (Suc (Suc (frames H - 4))))" by simp
  then show ?thesis by (rule that)
qed

text \<open>
  Claim C3 says that a neighbour already in the frontier keeps its \<open>g_cost\<close>, \<open>h_cost\<close>
  and parent. In the script's own run the node (3, 2) enters the frontier in the first
  pass with \<open>g_cost = 1\<close>; the second pass expands (2, 3) and assigns
  \<open>g_cost = 1 + 2 = 3\<close> to it, above the guard \<open>if valid_node not in self.openList\<close>;
  \<open>h_cost\<close> and the parent stay as they were. This holds for every hash of tuples and
  every recursion limit that leaves the four frames which the hashes of these two passes
  need.
\<close>

theorem frontier_g_cost_overwritten:
  assumes "4 \<le> frames H"
  shows "\<exists>s1 s2. A_Star_init 15 15 (2, 2) (12, 12) = Inr (A_Star_fields 15 15 (2, 2) (12, 12)) \<and>
     iterations (Suc 0) H (key_pressed (A_Star_fields 15 15 (2, 2) (12, 12))) = Some s1 \<and>
     iteration H s1 = Running s2 \<and>
     GridRef 3 2 \<in> set (openList s1) \<and> GridRef 3 2 \<in> set (openList s2) \<and>
     g_cost (heap s1 (GridRef 3 2)) = 1 \<and> g_cost (heap s2 (GridRef 3 2)) = 3 \<and>
     h_cost (heap s1 (GridRef 3 2)) = 19 \<and> h_cost (heap s2 (GridRef 3 2)) = 19 \<and>
     parent_node (heap s1 (GridRef 3 2)) = Some StartRef \<and>
     parent_node (heap s2 (GridRef 3 2)) = Some StartRef"
proof -
  from assms obtain d where d: "frames H = Suc (Suc (Suc (Suc d)))" by (rule four_frames)
  show ?thesis by (simp add: A_Star_init_eq) (simp add: run_defs d)
qed

theorem frontier_g_cost_overwritten_witness:
  "4 \<le> frames sample_python \<and>
   (\<exists>s1 s2. A_Star_init 15 15 (2, 2) (12, 12) = Inr (A_Star_fields 15 15 (2, 2) (12, 12)) \<and>
     iterations (Suc 0) sample_python (key_pressed (A_Star_fields 15 15 (2, 2) (12, 12))) = Some s1 \<and>
     iteration sample_python s1 = Running s2 \<and>
     g_cost (heap s1 (GridRef 3 2)) = 1 \<and> g_cost (heap s2 (GridRef 3 2)) = 3)"
  using frontier_g_cost_overwritten [of sample_python]
  by (auto simp: sample_python_def)

subsection \<open>The start coordinate comes back into the frontier\<close>

text \<open>
  Claim C4 says that a coordinate in the closed set never appears again as a valid
  neighbour and is never inserted into the frontier again. The script's own run
  (15 by 15, start (2, 2), goal (12, 12)) does both in its second pass through the loop,
  for every hash of tuples and every recursion limit that leaves four frames: the closed
  set holds the script's start node, the grid's node at (2, 2) is another object, so
  \<open>eval_node in self.closedSet\<close> is false for it, and it is appended to the frontier with
  (2, 3) as its parent.
\<close>

theorem start_coordinate_reinserted:
  assumes "4 \<le> frames H"
  shows "\<exists>s hv. A_Star_init 15 15 (2, 2) (12, 12) = Inr (A_Star_fields 15 15 (2, 2) (12, 12)) \<and>
     iterations (Suc (Suc 0)) H (key_pressed (A_Star_fields 15 15 (2, 2) (12, 12))) = Some s \<and>
     (StartRef, hv) \<in> closedSet s \<and>
     (x_pos (heap s StartRef), y_pos (heap s StartRef)) = (2, 2) \<and>
     GridRef 2 2 \<in> set (openList s) \<and>
     (x_pos (heap s (GridRef 2 2)), y_pos (heap s (GridRef 2 2))) = (2, 2) \<and>
     parent_node (heap s (GridRef 2 2)) = Some (GridRef 2 3)"
proof -
  from assms obtain d where d: "frames H = Suc (Suc (Suc (Suc d)))" by (rule four_frames)
  show ?thesis by (simp add: A_Star_init_eq) (simp add: run_defs d)
qed

theorem start_coordinate_reinserted_witness:
  "4 \<le> frames sample_python \<and>
   (\<exists>s hv. A_Star_init 15 15 (2, 2) (12, 12) = Inr (A_Star_fields 15 15 (2, 2) (12, 12)) \<and>
     iterations (Suc (Suc 0)) sample_python (key_pressed (A_Star_fields 15 15 (2, 2) (12, 12))) = Some s \<and>
     (StartRef, hv) \<in> closedSet s \<and> GridRef 2 2 \<in> set (openList s) \<and>
     parent_node (heap s (GridRef 2 2)) = Some (GridRef 2 3))"
  using start_coordinate_reinserted [of sample_python]
  by (auto simp: sample_python_def)

subsection \<open>The path on a grid without blocked cells\<close>

subsubsection \<open>Hashes and paths do not depend on nodes outside the closed set\<close>







subsubsection \<open>Sorting, the neighbours and the loop over them\<close>










subsubsection \<open>Geometry of the moves\<close>

lemmas geo_defs = avail_def fwd_node_def diag_node_def fwd_def adist_def between_def manh_def
  cheb_def inb_def


lemma step1:
  fixes c g s :: int
  assumes "c \<noteq> g"
  shows "\<bar>c + sgn (g - c) - g\<bar> = \<bar>c - g\<bar> - 1"
    and "\<bar>sgn (g - c)\<bar> = 1"
    and "\<bar>s - c\<bar> + \<bar>c - g\<bar> = \<bar>s - g\<bar> \<Longrightarrow> \<bar>c + sgn (g - c) - s\<bar> = \<bar>c - s\<bar> + 1"
    and "0 \<le> s \<Longrightarrow> s < n \<Longrightarrow> 0 \<le> g \<Longrightarrow> g < n \<Longrightarrow> \<bar>s - c\<bar> + \<bar>c - g\<bar> = \<bar>s - g\<bar> \<Longrightarrow>
         0 \<le> c + sgn (g - c) \<and> c + sgn (g - c) < n"
  using assms by (auto simp: sgn_if)

lemma manh_adist: "manh p q = adist AX p q + adist AY p q"
  by (simp add: manh_def adist_def)





lemma avail_adist: "avail a c g = (adist a c g \<noteq> 0)"
  by (cases a) (auto simp: avail_def adist_def)



text \<open>One step along an available axis.\<close>

lemma move_props:
  assumes "avail m c g"
  shows "fwd c g (fwd_node m c g)"
    and "adist m (fwd_node m c g) g = adist m c g - 1"
    and "adist (other m) (fwd_node m c g) g = adist (other m) c g"
    and "adist m c (fwd_node m c g) = 1"
    and "adist (other m) c (fwd_node m c g) = 0"
    and "avail (other m) (fwd_node m c g) g = avail (other m) c g"
    and "fwd_node (other m) (fwd_node m c g) g = diag_node c g"
    and "fwd_node m c g \<noteq> c"
proof -
  obtain cx cy gx gy where c: "c = (cx, cy)" and g: "g = (gx, gy)" by (cases c; cases g) auto
  show "fwd c g (fwd_node m c g)" using assms by (cases m) (auto simp: fwd_def)
  show "adist m (fwd_node m c g) g = adist m c g - 1"
    using assms step1(1) [of cx gx] step1(1) [of cy gy]
    by (cases m) (simp_all add: c g avail_def fwd_node_def adist_def)
  show "adist (other m) (fwd_node m c g) g = adist (other m) c g"
    by (cases m) (simp_all add: c g fwd_node_def adist_def)
  show "adist m c (fwd_node m c g) = 1"
    using assms step1(2) [of cx gx] step1(2) [of cy gy]
    by (cases m) (simp_all add: c g avail_def fwd_node_def adist_def)
  show "adist (other m) c (fwd_node m c g) = 0"
    by (cases m) (simp_all add: c g fwd_node_def adist_def)
  show "avail (other m) (fwd_node m c g) g = avail (other m) c g"
    by (cases m) (simp_all add: c g fwd_node_def avail_def)
  show "fwd_node (other m) (fwd_node m c g) g = diag_node c g"
    by (cases m) (simp_all add: c g fwd_node_def diag_node_def)
  show "fwd_node m c g \<noteq> c"
    using assms by (cases m) (auto simp: c g avail_def fwd_node_def sgn_if)
qed


lemma diag_props:
  assumes "avail AX c g" "avail AY c g"
  shows "fwd c g (diag_node c g)"
    and "diag_node c g \<noteq> fwd_node a c g"
    and "adist a (diag_node c g) g = adist a c g - 1"
    and "adist a c (diag_node c g) = 1"
    and "between s c g \<Longrightarrow> adist a (diag_node c g) s = adist a c s + 1"
proof -
  obtain cx cy gx gy sx sy where c: "c = (cx, cy)" and g: "g = (gx, gy)" and s: "s = (sx, sy)"
    by (cases c; cases g; cases s) auto
  have ne: "cx \<noteq> gx" "cy \<noteq> gy" using assms by (simp_all add: c g avail_def)
  show "fwd c g (diag_node c g)" using assms by (simp add: fwd_def)
  show "diag_node c g \<noteq> fwd_node a c g"
    using ne by (cases a) (auto simp: c g fwd_node_def diag_node_def sgn_if)
  show "adist a (diag_node c g) g = adist a c g - 1"
    using step1(1) [OF ne(1)] step1(1) [OF ne(2)]
    by (cases a) (simp_all add: c g diag_node_def adist_def)
  show "adist a c (diag_node c g) = 1"
    using step1(2) [OF ne(1)] step1(2) [OF ne(2)]
    by (cases a) (simp_all add: c g diag_node_def adist_def)
  assume "between s c g"
  then have ex: "\<bar>sx - cx\<bar> + \<bar>cx - gx\<bar> = \<bar>sx - gx\<bar>" and ey: "\<bar>sy - cy\<bar> + \<bar>cy - gy\<bar> = \<bar>sy - gy\<bar>"
    by (simp_all add: c g s between_def adist_def)
  show "adist a (diag_node c g) s = adist a c s + 1"
    using step1(3) [OF ne(1) ex] step1(3) [OF ne(2) ey]
    by (cases a) (simp_all add: c g s diag_node_def adist_def)
qed

lemma fwd_cases:
  assumes "fwd c g q"
  obtains (axis) m where "avail m c g" "q = fwd_node m c g"
  | (diag) "avail AX c g" "avail AY c g" "q = diag_node c g"
  using assms unfolding fwd_def by blast





lemma fwd_axis:
  assumes "fwd c g q" "manh c q = 1"
  obtains m where "avail m c g" "q = fwd_node m c g"
  using assms(1)
proof (cases rule: fwd_cases)
  case (axis m)
  then show ?thesis using that by blast
next
  case diag
  with diag_props(4) [OF diag(1,2)] assms(2) have False by (simp add: manh_adist)
  then show ?thesis ..
qed


subsubsection \<open>Coordinates of references and the list of neighbours\<close>




lemma gref_not_special: "gref p \<noteq> StartRef" "gref p \<noteq> EndRef"
  by (simp_all add: gref_def)














subsubsection \<open>The node that is popped\<close>









lemma other_other: "other (other m) = m"
  by (cases m) simp_all



lemma fwd_node_distinct:
  assumes "avail m c g" "avail (other m) c g"
  shows "fwd_node m c g \<noteq> fwd_node (other m) c g"
proof
  assume e: "fwd_node m c g = fwd_node (other m) c g"
  have "adist m c (fwd_node m c g) = 1" by (rule move_props(4) [OF assms(1)])
  moreover have "adist (other (other m)) c (fwd_node (other m) c g) = 0"
    by (rule move_props(5) [OF assms(2)])
  ultimately show False by (simp add: other_other e)
qed







subsubsection \<open>From one pass through the loop to the next\<close>


























end
